theory Spec2Isabelle
  imports
    Main
    "HOL-Library.Word"
    "HOL-Library.Multiset"
    "HOL-Library.Char_ord"
    "HOL-Library.List_Lexorder"
begin

unbundle bit_operations_syntax

section \<open>Byte strings and the constant-time comparison\<close>

text \<open>
  A Go \<open>string\<close> is a sequence of bytes and is modelled as \<^typ>\<open>string\<close>; the
  conversion \<open>[]byte(s)\<close> yields the same bytes as 8-bit words.
\<close>

type_synonym byte = "8 word"

definition bytes :: "string \<Rightarrow> byte list" where
  "bytes s = map (\<lambda>c. word_of_nat (of_char c)) s"

text \<open>
  \<open>hmac.Equal(a, b)\<close> is \<open>subtle.ConstantTimeCompare(a, b) == 1\<close>. The library
  function returns 0 when the lengths differ; otherwise it folds \<open>v |= x[i] ^ y[i]\<close>
  over all positions, with no early exit, and returns
  \<open>ConstantTimeByteEq(v, 0) = int((uint32(v ^ 0) - 1) >> 31)\<close>.
\<close>

definition ConstantTimeByteEq :: "byte \<Rightarrow> byte \<Rightarrow> int" where
  "ConstantTimeByteEq x y = uint (drop_bit 31 ((ucast (x XOR y) :: 32 word) - 1))"

fun xor_accum :: "byte \<Rightarrow> byte list \<Rightarrow> byte list \<Rightarrow> byte" where
  "xor_accum v (a # x) (b # y) = xor_accum (v OR (a XOR b)) x y"
| "xor_accum v _ _ = v"

definition ConstantTimeCompare :: "byte list \<Rightarrow> byte list \<Rightarrow> int" where
  "ConstantTimeCompare x y =
     (if length x \<noteq> length y then 0 else ConstantTimeByteEq (xor_accum 0 x y) 0)"

definition hmac_Equal :: "byte list \<Rightarrow> byte list \<Rightarrow> bool" where
  "hmac_Equal mac1 mac2 \<longleftrightarrow> ConstantTimeCompare mac1 mac2 = 1"

section \<open>The channel registry\<close>

text \<open>
  The store is a PostgreSQL database reached through the process-wide pool \<open>db\<close>. The
  three tables the statements mention are lists of rows, in the order a sequential scan
  returns them. \<open>ftl_id\<close> is nullable. \<open>conn_error\<close> is the error the pool reports
  for a statement when the store cannot be reached (\<open>None\<close> when it answers).
\<close>

record channel_defs_row =
  cd_user_id :: string
  cd_name :: string
  cd_key :: string
  cd_announce :: bool
  cd_ftl_id :: "string option"

record users_row =
  u_user_id :: string
  u_announce :: bool

record thumbs_row =
  th_name :: string
  th_thumb :: "byte list"
  th_updated :: int  \<comment> \<open>microseconds since the Unix epoch\<close>

record database =
  channel_defs :: "channel_defs_row list"
  users :: "users_row list"
  thumbs :: "thumbs_row list"
  conn_error :: "string option"

datatype error =
    ErrNoRows           \<comment> \<open>\<open>pgx.ErrNoRows\<close>\<close>
  | ErrUserNotFound     \<comment> \<open>\<open>errors.New("user not found or wrong key")\<close>\<close>
  | StoreError string   \<comment> \<open>any other error of the driver\<close>

record channelAuth =
  UserID :: string
  Name :: string
  Announce :: bool

subsection \<open>The joined lookup\<close>

text \<open>
  \<open>channel_defs LEFT JOIN users USING (user_id)\<close>: every channel row paired with each
  users row of the same \<open>user_id\<close>, or once with a null users side when there is none.
\<close>

definition left_join ::
  "channel_defs_row list \<Rightarrow> users_row list \<Rightarrow> (channel_defs_row \<times> users_row option) list" where
  "left_join cs us =
     concat (map (\<lambda>c. case filter (\<lambda>u. u_user_id u = cd_user_id c) us of
                          [] \<Rightarrow> [(c, None)]
                        | ms \<Rightarrow> map (\<lambda>u. (c, Some u)) ms) cs)"

text \<open>SQL's three-valued \<open>AND\<close> and \<open>COALESCE\<close> on nullable booleans.\<close>

fun sql_and :: "bool option \<Rightarrow> bool option \<Rightarrow> bool option" where
  "sql_and (Some False) _ = Some False"
| "sql_and _ (Some False) = Some False"
| "sql_and (Some True) (Some True) = Some True"
| "sql_and _ _ = None"

fun coalesce :: "'a option \<Rightarrow> 'a \<Rightarrow> 'a" where
  "coalesce (Some v) _ = v"
| "coalesce None d = d"

text \<open>
  The \<open>WHERE\<close> clause is built by string concatenation from \<open>column\<close>; the callers
  pass \<open>name\<close> and \<open>ftl_id\<close>. A comparison with a null \<open>ftl_id\<close> is not true. Any
  other text is rejected by the store.
\<close>

definition where_column :: "string \<Rightarrow> (channel_defs_row \<Rightarrow> string option) option" where
  "where_column column =
     (if column = ''name'' then Some (\<lambda>c. Some (cd_name c))
      else if column = ''ftl_id'' then Some cd_ftl_id
      else None)"

definition findChannel :: "database \<Rightarrow> string \<Rightarrow> string \<Rightarrow> error + (channelAuth \<times> string)" where
  "findChannel db column val =
     (case conn_error db of
        Some msg \<Rightarrow> Inl (StoreError msg)
      | None \<Rightarrow>
         (case where_column column of
            None \<Rightarrow> Inl (StoreError (''column '' @ column @ '' does not exist''))
          | Some col \<Rightarrow>
             (case filter (\<lambda>(c, u). col c = Some val) (left_join (channel_defs db) (users db)) of
                [] \<Rightarrow> Inl ErrNoRows
              | (c, u) # _ \<Rightarrow>
                  Inr (\<lparr>UserID = cd_user_id c, Name = cd_name c,
                        Announce = coalesce (sql_and (Some (cd_announce c)) (map_option u_announce u)) False\<rparr>,
                       cd_key c))))"

subsection \<open>Ingest authentication\<close>

text \<open>
  The calls a verification makes, in order: the registry lookup, the comparison and the
  diagnostic log line.
\<close>

datatype call =
    FindChannel string string
  | HmacEqual "byte list" "byte list"
  | LogPrintf string

text \<open>
  The request URL as \<open>verifyRTMP\<close> reads it: the path, and the decoded query values
  (\<open>u.Query()\<close>). \<open>Values.Get\<close> returns the first value of a key, or the empty string.
  \<open>path.Base\<close> returns the last element of a path, after removing trailing slashes.
\<close>

record url =
  Path :: string
  Query :: "string \<rightharpoonup> string list"

definition Values_Get :: "(string \<rightharpoonup> string list) \<Rightarrow> string \<Rightarrow> string" where
  "Values_Get v k = (case v k of None \<Rightarrow> [] | Some [] \<Rightarrow> [] | Some (x # _) \<Rightarrow> x)"

definition path_Base :: "string \<Rightarrow> string" where
  "path_Base p =
     (if p = [] then ''.''
      else let stripped = rev (dropWhile (\<lambda>c. c = CHR ''/'') (rev p));
               elem = rev (takeWhile (\<lambda>c. c \<noteq> CHR ''/'') (rev stripped))
           in if elem = [] then ''/'' else elem)"

text \<open>
  Go returns the pair \<open>(auth, err)\<close>; a caller reads \<open>auth\<close> only when \<open>err\<close> is nil,
  so the pair is the sum \<open>error + channelAuth\<close>. The first component is the list of
  calls made.
\<close>

definition verifyRTMP :: "database \<Rightarrow> url \<Rightarrow> call list \<times> (error + channelAuth)" where
  "verifyRTMP db u =
     (let name = path_Base (Path u) in
      case findChannel db ''name'' name of
        Inl err \<Rightarrow>
          ([FindChannel ''name'' name], Inl (if err = ErrNoRows then ErrUserNotFound else err))
      | Inr (auth, expectKey) \<Rightarrow>
          (let key = Values_Get (Query u) ''key'';
               calls = [FindChannel ''name'' name, HmacEqual (bytes key) (bytes expectKey)]
           in if \<not> hmac_Equal (bytes key) (bytes expectKey)
              then (calls, Inl ErrUserNotFound)
              else (calls, Inr auth)))"

text \<open>
  \<open>hm\<close> is \<open>hmac.New(sha512.New, key)\<close> of the standard library; the keyed digest is a
  parameter \<open>hmac_sha512 key message\<close>.
\<close>

definition verifyFTL ::
  "(byte list \<Rightarrow> byte list \<Rightarrow> byte list) \<Rightarrow> database \<Rightarrow> string \<Rightarrow> byte list \<Rightarrow> byte list
    \<Rightarrow> call list \<times> (error + channelAuth)" where
  "verifyFTL hmac_sha512 db channelID nonce hmacProvided =
     (case findChannel db ''ftl_id'' channelID of
        Inl err \<Rightarrow>
          ([FindChannel ''ftl_id'' channelID], Inl (if err = ErrNoRows then ErrUserNotFound else err))
      | Inr (auth, key) \<Rightarrow>
          (let expected = hmac_sha512 (bytes key) nonce;
               calls = [FindChannel ''ftl_id'' channelID, HmacEqual expected hmacProvided]
           in if \<not> hmac_Equal expected hmacProvided
              then (calls @ [LogPrintf (''error: hmac digest mismatch for FTL channel '' @ Name auth)],
                    Inl ErrUserNotFound)
              else (calls, Inr auth)))"

subsection \<open>Updating and deleting a channel\<close>

text \<open>
  \<open>db.Exec\<close> changes the store and returns a command tag and an error. Both functions
  return the store after the statement together with Go's error (\<open>None\<close> for nil).
  \<open>updateChannel\<close> inspects \<open>tag.RowsAffected()\<close>; \<open>deleteChannel\<close> discards the
  tag and returns the error of \<open>Exec\<close> alone.
\<close>

definition targets :: "string \<Rightarrow> string \<Rightarrow> channel_defs_row \<Rightarrow> bool" where
  "targets userID name c \<longleftrightarrow> cd_user_id c = userID \<and> cd_name c = name"

definition exec_update :: "database \<Rightarrow> bool \<Rightarrow> string \<Rightarrow> string \<Rightarrow> error + (database \<times> nat)" where
  "exec_update db announce userID name =
     (case conn_error db of
        Some msg \<Rightarrow> Inl (StoreError msg)
      | None \<Rightarrow>
          Inr (db\<lparr>channel_defs :=
                    map (\<lambda>c. if targets userID name c then c\<lparr>cd_announce := announce\<rparr> else c)
                        (channel_defs db)\<rparr>,
               length (filter (targets userID name) (channel_defs db))))"

definition exec_delete :: "database \<Rightarrow> string \<Rightarrow> string \<Rightarrow> error + (database \<times> nat)" where
  "exec_delete db userID name =
     (case conn_error db of
        Some msg \<Rightarrow> Inl (StoreError msg)
      | None \<Rightarrow>
          Inr (db\<lparr>channel_defs := filter (\<lambda>c. \<not> targets userID name c) (channel_defs db)\<rparr>,
               length (filter (targets userID name) (channel_defs db))))"

definition updateChannel :: "database \<Rightarrow> string \<Rightarrow> string \<Rightarrow> bool \<Rightarrow> database \<times> error option" where
  "updateChannel db userID name announce =
     (case exec_update db announce userID name of
        Inl err \<Rightarrow> (db, Some err)
      | Inr (db', rowsAffected) \<Rightarrow>
          if rowsAffected = 0 then (db', Some ErrNoRows) else (db', None))"

definition deleteChannel :: "database \<Rightarrow> string \<Rightarrow> string \<Rightarrow> database \<times> error option" where
  "deleteChannel db userID name =
     (case exec_delete db userID name of
        Inl err \<Rightarrow> (db, Some err)
      | Inr (db', _) \<Rightarrow> (db', None))"

subsection \<open>The liveness directory\<close>

text \<open>
  \<open>ORDER BY greatest(now() - updated, '1 minute'::interval) ASC, 1 ASC\<close>: rows are
  compared by the age floored at one minute, then by the first output column, the name.
  Times are in microseconds. The order of names is the collation of the store, a
  parameter \<open>collate\<close>; \<open>now\<close> is the time of the statement. The ordering itself is an
  insertion sort, which returns the rows in an order the clause allows.
\<close>

definition minute :: int where
  "minute = 60000000"

definition age_floor :: "int \<Rightarrow> thumbs_row \<Rightarrow> int" where
  "age_floor now r = max (now - th_updated r) minute"

definition row_le :: "(string \<Rightarrow> string \<Rightarrow> bool) \<Rightarrow> int \<Rightarrow> thumbs_row \<Rightarrow> thumbs_row \<Rightarrow> bool" where
  "row_le collate now r1 r2 \<longleftrightarrow>
     age_floor now r1 < age_floor now r2 \<or>
     (age_floor now r1 = age_floor now r2 \<and> collate (th_name r1) (th_name r2))"

fun insert_by :: "('a \<Rightarrow> 'a \<Rightarrow> bool) \<Rightarrow> 'a \<Rightarrow> 'a list \<Rightarrow> 'a list" where
  "insert_by le x [] = [x]"
| "insert_by le x (y # ys) = (if le x y then x # y # ys else y # insert_by le x ys)"

fun order_by :: "('a \<Rightarrow> 'a \<Rightarrow> bool) \<Rightarrow> 'a list \<Rightarrow> 'a list" where
  "order_by le [] = []"
| "order_by le (x # xs) = insert_by le x (order_by le xs)"

record channelInfo =
  info_Name :: string
  info_Live :: bool
  info_Last :: int
  info_Thumb :: string
  info_LiveURL :: string

text \<open>
  \<open>info.Last = last.UnixNano() / 1000000\<close>: the nanoseconds wrap to an \<open>int64\<close> and
  Go's division truncates towards zero.
\<close>

definition UnixNano :: "int \<Rightarrow> int" where
  "UnixNano us = sint (word_of_int (us * 1000) :: 64 word)"

definition go_div :: "int \<Rightarrow> int \<Rightarrow> int" where
  "go_div a b = sgn a * sgn b * (\<bar>a\<bar> div \<bar>b\<bar>)"

definition scan_info :: "thumbs_row \<Rightarrow> channelInfo" where
  "scan_info r =
     \<lparr>info_Name = th_name r, info_Live = False,
      info_Last = go_div (UnixNano (th_updated r)) 1000000,
      info_Thumb = [], info_LiveURL = []\<rparr>"

definition listChannels ::
  "(string \<Rightarrow> string \<Rightarrow> bool) \<Rightarrow> int \<Rightarrow> database \<Rightarrow> error + channelInfo list" where
  "listChannels collate now db =
     (case conn_error db of
        Some msg \<Rightarrow> Inl (StoreError msg)
      | None \<Rightarrow> Inr (map scan_info (order_by (row_le collate now) (thumbs db))))"

section \<open>The OAuth login flow\<close>

text \<open>
  Modelled from the spec: the declarations of \<open>discordUser\<close>, of the two cookie names
  and of the helpers \<open>unseal\<close> and \<open>setCookie\<close> are not among the sources. The session
  identity is \<open>{id, username, discriminator, avatar}\<close>; the two cookies are distinct
  names; the sealer is a black box with the contract
  \<open>seal(payload, ttl) -> token\<close>, \<open>unseal(token) -> payload | error\<close>.
\<close>

record discordUser =
  ID :: string
  Username :: string
  Discriminator :: string
  Avatar :: string

definition anonymous :: discordUser where
  "anonymous = \<lparr>ID = [], Username = [], Discriminator = [], Avatar = []\<rparr>"

datatype cookie_name = loginCookie | stateCookie

datatype oauth_error =
    MissingCode                \<comment> \<open>\<open>errors.New("missing code")\<close>\<close>
  | StateMismatch              \<comment> \<open>\<open>errors.New("state mismatch")\<close>\<close>
  | ErrNoCookie                \<comment> \<open>the cookie is not in the request\<close>
  | ErrInvalidCookie           \<comment> \<open>the sealer rejects the cookie's value\<close>
  | UpstreamError string       \<comment> \<open>an error of the provider\<close>
  | SealError string           \<comment> \<open>the sealer cannot seal a value\<close>

record request =
  Form :: "string \<rightharpoonup> string"
  Cookies :: "cookie_name \<rightharpoonup> string"
  RemoteAddr :: string

definition FormValue :: "request \<Rightarrow> string \<Rightarrow> string" where
  "FormValue req k = (case Form req k of None \<Rightarrow> [] | Some v \<Rightarrow> v)"

text \<open>
  The server with its collaborators: the configured client id, the sealer opened at the
  two payload types, sealing of a login, and the provider's token exchange and profile
  fetch.
\<close>

record Server =
  ClientID :: string
  open_state :: "string \<Rightarrow> string option"
  open_login :: "string \<Rightarrow> discordUser option"
  seal_login :: "discordUser \<Rightarrow> string + string"
  Exchange :: "string \<Rightarrow> string + string"
  lookupUser :: "string \<Rightarrow> string + discordUser"

text \<open>
  Modelled from the spec: \<open>unseal\<close> reads the named cookie of the request and opens
  it; an absent cookie and a rejected value are both errors.
\<close>

definition unseal :: "(string \<Rightarrow> 'a option) \<Rightarrow> request \<Rightarrow> cookie_name \<Rightarrow> oauth_error + 'a" where
  "unseal opn req name =
     (case Cookies req name of
        None \<Rightarrow> Inl ErrNoCookie
      | Some sealed \<Rightarrow> (case opn sealed of None \<Rightarrow> Inl ErrInvalidCookie | Some v \<Rightarrow> Inr v))"

text \<open>
  What a handler does, in order: cookies set on the response (\<open>setCookie\<close> with a nil
  value and a negative lifetime clears the cookie), calls to the provider, log lines and
  the response itself.
\<close>

datatype event =
    SetCookie cookie_name "string option" int
  | ExchangeCall string
  | LookupUserCall string
  | LogError string oauth_error
  | HttpError string nat
  | Redirect string nat
  | SetHeader string string
  | Write string
  | WriteJSON discordUser

definition loginCookieExpires :: int where
  "loginCookieExpires = 30 * 24 * 60 * 60"

definition viewUser :: "Server \<Rightarrow> request \<Rightarrow> event list" where
  "viewUser s req =
     (let info = (case unseal (open_login s) req loginCookie of
                    Inl err \<Rightarrow> anonymous
                  | Inr v \<Rightarrow> v);
          info' = (if Avatar info \<noteq> []
                   then info\<lparr>Avatar := ''/avatars/'' @ ID info @ ''/'' @ Avatar info @ ''.png''\<rparr>
                   else info)
      in [WriteJSON info'])"

definition tokenExchange :: "Server \<Rightarrow> request \<Rightarrow> event list \<times> (oauth_error + string)" where
  "tokenExchange s req =
     (let code = FormValue req ''code'' in
      if code = [] then ([], Inl MissingCode)
      else
        let state = FormValue req ''state'';
            unsealed = unseal (open_state s) req stateCookie;
            cleared = [SetCookie stateCookie None (- 1)]
        in case unsealed of
             Inl err \<Rightarrow> (cleared, Inl err)
           | Inr state2 \<Rightarrow>
               if \<not> hmac_Equal (bytes state2) (bytes state)
               then (cleared, Inl StateMismatch)
               else (cleared @ [ExchangeCall code],
                     case Exchange s code of
                       Inl msg \<Rightarrow> Inl (UpstreamError msg)
                     | Inr token \<Rightarrow> Inr token))"

definition viewOauthCB :: "Server \<Rightarrow> request \<Rightarrow> event list" where
  "viewOauthCB s req =
     (if ClientID s = [] then [HttpError ''oauth not configured'' 400]
      else case tokenExchange s req of
        (evs, Inl err) \<Rightarrow>
          evs @ [LogError (RemoteAddr req) err, HttpError ''oauth failure'' 400]
      | (evs, Inr token) \<Rightarrow>
          (case lookupUser s token of
             Inl msg \<Rightarrow>
               evs @ [LookupUserCall token, LogError (RemoteAddr req) (UpstreamError msg),
                      HttpError ''error getting user info from discord'' 400]
           | Inr user \<Rightarrow>
               (case seal_login s user of
                  Inl msg \<Rightarrow>
                    evs @ [LookupUserCall token, LogError [] (SealError msg),
                           HttpError ''error setting login cookie'' 500]
                | Inr sealed \<Rightarrow>
                    evs @ [LookupUserCall token,
                           SetCookie loginCookie (Some sealed) loginCookieExpires,
                           Redirect ''/'' 302])))"

definition viewOauthLogout :: "Server \<Rightarrow> request \<Rightarrow> event list" where
  "viewOauthLogout s req =
     [SetCookie loginCookie None (- 1),
      SetHeader ''Content-Type'' ''application/json'',
      Write ''{}'']"

text \<open>
  Modelled from the spec: the user agent keeps the cookies a response sets and drops a
  cookie that is cleared (set with a negative or zero lifetime); its next request carries
  what it kept.
\<close>

fun store_cookie :: "(cookie_name \<rightharpoonup> string) \<Rightarrow> event \<Rightarrow> (cookie_name \<rightharpoonup> string)" where
  "store_cookie jar (SetCookie name (Some v) ttl) = (if ttl \<le> 0 then jar(name := None) else jar(name \<mapsto> v))"
| "store_cookie jar (SetCookie name None ttl) = jar(name := None)"
| "store_cookie jar _ = jar"

definition next_request :: "request \<Rightarrow> event list \<Rightarrow> request \<Rightarrow> request" where
  "next_request req evs req' = req'\<lparr>Cookies := foldl store_cookie (Cookies req) evs\<rparr>"

section \<open>Sample data\<close>

text \<open>
  A small registry: \<open>alice\<close> belongs to an owner with a preference row and has an FTL
  id, \<open>bob\<close> belongs to an owner without one. Three channels have gone live, 200, 70
  and 10 seconds before \<open>sample_now\<close>; in \<open>sample_recent\<close> two channels were both
  updated 5 seconds before it.
\<close>

definition sample_now :: int where
  "sample_now = 1000000000"

definition sample_db :: database where
  "sample_db =
     \<lparr>channel_defs =
        [\<lparr>cd_user_id = ''u1'', cd_name = ''alice'', cd_key = ''k-alice'', cd_announce = True,
          cd_ftl_id = Some ''7''\<rparr>,
         \<lparr>cd_user_id = ''u2'', cd_name = ''bob'', cd_key = ''k-bob'', cd_announce = True,
          cd_ftl_id = None\<rparr>],
      users = [\<lparr>u_user_id = ''u1'', u_announce = True\<rparr>],
      thumbs =
        [\<lparr>th_name = ''C'', th_thumb = [], th_updated = 800000000\<rparr>,
         \<lparr>th_name = ''B'', th_thumb = [], th_updated = 930000000\<rparr>,
         \<lparr>th_name = ''A'', th_thumb = [], th_updated = 990000000\<rparr>],
      conn_error = None\<rparr>"

definition sample_recent :: database where
  "sample_recent =
     \<lparr>channel_defs = [], users = [],
      thumbs =
        [\<lparr>th_name = ''D'', th_thumb = [], th_updated = 995000000\<rparr>,
         \<lparr>th_name = ''A'', th_thumb = [], th_updated = 995000000\<rparr>],
      conn_error = None\<rparr>"

definition sample_url :: "string \<Rightarrow> string \<Rightarrow> url" where
  "sample_url p k = \<lparr>Path = p, Query = [''key'' \<mapsto> [k]]\<rparr>"

definition sample_mac :: "byte list \<Rightarrow> byte list \<Rightarrow> byte list" where
  "sample_mac k m = k @ m"

definition sample_user :: discordUser where
  "sample_user = \<lparr>ID = ''42'', Username = ''ann'', Discriminator = ''0001'', Avatar = ''abc''\<rparr>"

definition sample_server :: Server where
  "sample_server =
     \<lparr>ClientID = ''client'',
      open_state = (\<lambda>t. if t = ''sealed-s1'' then Some ''s1'' else None),
      open_login = (\<lambda>t. if t = ''sealed-ann'' then Some sample_user else None),
      seal_login = (\<lambda>v. Inr ''sealed-ann''),
      Exchange = (\<lambda>c. Inr ''token''),
      lookupUser = (\<lambda>t. Inr sample_user)\<rparr>"

definition sample_request :: "(string \<rightharpoonup> string) \<Rightarrow> (cookie_name \<rightharpoonup> string) \<Rightarrow> request" where
  "sample_request form jar = \<lparr>Form = form, Cookies = jar, RemoteAddr = ''10.0.0.1:4000''\<rparr>"

text \<open>A registry of one channel and its owner, with the two announce flags as given.\<close>

definition flags_db :: "bool \<Rightarrow> bool \<Rightarrow> database" where
  "flags_db ca ua =
     \<lparr>channel_defs =
        [\<lparr>cd_user_id = ''u1'', cd_name = ''alice'', cd_key = ''k-alice'', cd_announce = ca,
          cd_ftl_id = Some ''7''\<rparr>],
      users = [\<lparr>u_user_id = ''u1'', u_announce = ua\<rparr>],
      thumbs = [],
      conn_error = None\<rparr>"

text \<open>
  Callback requests for the state token \<open>s1\<close>: a matching one, one with another
  \<open>state\<close>, one without the state cookie and one without a \<open>code\<close>; and identity
  reads with a valid and with a forged session cookie.
\<close>

definition callback_ok :: request where
  "callback_ok =
     sample_request [''code'' \<mapsto> ''c1'', ''state'' \<mapsto> ''s1''] [stateCookie \<mapsto> ''sealed-s1'']"

definition callback_mismatch :: request where
  "callback_mismatch =
     sample_request [''code'' \<mapsto> ''c1'', ''state'' \<mapsto> ''s2''] [stateCookie \<mapsto> ''sealed-s1'']"

definition callback_no_cookie :: request where
  "callback_no_cookie =
     sample_request [''code'' \<mapsto> ''c1'', ''state'' \<mapsto> ''s1''] Map.empty"

definition callback_no_code :: request where
  "callback_no_code =
     sample_request [''state'' \<mapsto> ''s1''] [stateCookie \<mapsto> ''sealed-s1'']"

definition session_request :: request where
  "session_request = sample_request Map.empty [loginCookie \<mapsto> ''sealed-ann'']"

definition forged_request :: request where
  "forged_request = sample_request Map.empty [loginCookie \<mapsto> ''garbage'']"

section \<open>Properties\<close>

subsection \<open>The comparison decides equality\<close>

lemma xor_accum_mono: "v \<noteq> 0 \<Longrightarrow> xor_accum v x y \<noteq> 0"
proof (induction v x y rule: xor_accum.induct)
  case (1 v a x b y)
  have "v OR (a XOR b) \<noteq> 0"
    using "1.prems" by (simp add: or_eq_0_iff)
  then show ?case using "1.IH" by simp
qed simp_all

lemma ConstantTimeByteEq_zero: "ConstantTimeByteEq v 0 = (if v = 0 then 1 else 0)"
proof (cases "v = 0")
  case True
  then show ?thesis by (simp add: ConstantTimeByteEq_def)
next
  case False
  let ?w = "ucast v :: 32 word"
  have v256: "unat v < 256" using unsigned_less [of v, where 'a = nat] by simp
  then have "unat v < 2 ^ 32" by simp
  then have eq: "unat ?w = unat v"
    by (simp add: unsigned_ucast_eq take_bit_nat_eq_self)
  have "unat v \<noteq> 0" using False by (simp only: unsigned_eq_0_iff not_False_eq_True)
  then have "unat ?w \<noteq> 0" using eq by simp
  then have nz: "?w \<noteq> 0" by auto
  have lt: "unat ?w < 256" using eq v256 by simp
  have "unat (?w - 1) = unat ?w - 1"
    using nz by (simp add: unat_minus_one)
  then have "unat (?w - 1) < 2 ^ 31" using lt by simp
  then have "drop_bit 31 (unat (?w - 1)) = 0"
    by (simp add: drop_bit_eq_div)
  then have "unat (drop_bit 31 (?w - 1)) = 0"
    by (simp only: unat_drop_bit_eq)
  then have "drop_bit 31 (?w - 1) = 0"
    by (simp only: unsigned_eq_0_iff)
  then show ?thesis using False by (simp add: ConstantTimeByteEq_def)
qed

lemma xor_accum_zero_iff:
  "length x = length y \<Longrightarrow> xor_accum 0 x y = 0 \<longleftrightarrow> x = y"
proof (induction x y rule: list_induct2)
  case Nil
  then show ?case by simp
next
  case (Cons a x b y)
  show ?case
  proof (cases "a = b")
    case True
    then show ?thesis using Cons.IH by simp
  next
    case False
    have "a XOR b \<noteq> 0"
    proof
      assume "a XOR b = 0"
      then have "(a XOR b) XOR b = 0 XOR b" by simp
      then have "a = b" by (simp add: xor.assoc)
      with False show False by simp
    qed
    then show ?thesis using False xor_accum_mono [of "a XOR b" x y] by simp
  qed
qed

lemma hmac_Equal_iff: "hmac_Equal a b \<longleftrightarrow> a = b"
  by (auto simp: hmac_Equal_def ConstantTimeCompare_def ConstantTimeByteEq_zero xor_accum_zero_iff)

lemma bytes_inj: "bytes s = bytes t \<longleftrightarrow> s = t"
proof -
  have "inj (\<lambda>c. word_of_nat (of_char c) :: byte)"
  proof (rule injI)
    fix c d :: char
    assume "(word_of_nat (of_char c) :: byte) = word_of_nat (of_char d)"
    then have "unat (word_of_nat (of_char c) :: byte) = unat (word_of_nat (of_char d) :: byte)" by simp
    then have "(of_char c :: nat) = of_char d"
      by (simp add: unat_of_nat of_char_mod_256)
    then show "c = d" by simp
  qed
  then show ?thesis by (simp add: bytes_def inj_map_eq_map)
qed

subsection \<open>The joined lookup\<close>

lemma set_left_join:
  "(c, uo) \<in> set (left_join cs us) \<longleftrightarrow>
     c \<in> set cs \<and>
     (case uo of
        None \<Rightarrow> (\<forall>u \<in> set us. u_user_id u \<noteq> cd_user_id c)
      | Some u \<Rightarrow> u \<in> set us \<and> u_user_id u = cd_user_id c)"
proof -
  have one: "(c, uo) \<in> set (case filter (\<lambda>u. u_user_id u = cd_user_id c') us of
                        [] \<Rightarrow> [(c', None)]
                      | ms \<Rightarrow> map (\<lambda>u. (c', Some u)) ms) \<longleftrightarrow>
       c = c' \<and> (case uo of
          None \<Rightarrow> (\<forall>u \<in> set us. u_user_id u \<noteq> cd_user_id c)
        | Some u \<Rightarrow> u \<in> set us \<and> u_user_id u = cd_user_id c)" for c'
  proof (cases "filter (\<lambda>u. u_user_id u = cd_user_id c') us")
    case Nil
    then show ?thesis
      by (auto simp: filter_empty_conv split: option.splits)
  next
    case (Cons m ms)
    then have "set (m # ms) = {u \<in> set us. u_user_id u = cd_user_id c'}"
      by (metis set_filter)
    moreover have "m \<in> set us \<and> u_user_id m = cd_user_id c'"
      using calculation by auto
    ultimately show ?thesis
      using Cons by (auto split: option.splits)
  qed
  show ?thesis
    unfolding left_join_def set_concat by (auto simp: one)
qed


lemma left_join_None:
  "(c, None) \<in> set (left_join cs us) \<longleftrightarrow>
     c \<in> set cs \<and> (\<forall>u \<in> set us. u_user_id u \<noteq> cd_user_id c)"
  by (simp add: set_left_join)

lemma left_join_Some:
  "(c, Some u) \<in> set (left_join cs us) \<longleftrightarrow>
     c \<in> set cs \<and> u \<in> set us \<and> u_user_id u = cd_user_id c"
  by (simp add: set_left_join)

lemma left_join_fst: "(c, uo) \<in> set (left_join cs us) \<Longrightarrow> c \<in> set cs"
  by (simp add: set_left_join)

lemma filter_all_same:
  assumes "x \<in> set xs" "P x" "\<forall>y \<in> set xs. P y \<longrightarrow> y = x"
  shows "\<exists>rest. filter P xs = x # rest"
proof (cases "filter P xs")
  case Nil
  then have "\<forall>y \<in> set xs. \<not> P y" by (simp add: filter_empty_conv)
  with assms(1,2) show ?thesis by blast
next
  case (Cons y ys)
  then have "y \<in> set (filter P xs)" by simp
  then have "y \<in> set xs \<and> P y" by simp
  with assms(3) have "y = x" by blast
  with Cons show ?thesis by simp
qed


lemma where_clause_fst: "(\<lambda>(c, u). col c = Some val) = (\<lambda>y. col (fst y) = Some val)"
  by (rule ext) (simp add: case_prod_beta)

lemma joined_unique_channel:
  assumes "\<forall>c' \<in> set cs. col c' = Some val \<longrightarrow> c' = c"
    and "y \<in> set (left_join cs us)" and "col (fst y) = Some val"
  shows "fst y = c"
proof -
  have "(fst y, snd y) \<in> set (left_join cs us)" using assms(2) by simp
  then have "fst y \<in> set cs" by (rule left_join_fst)
  with assms(1,3) show ?thesis by blast
qed

lemma findChannel_owner:
  assumes conn: "conn_error db = None"
    and col: "where_column column = Some col"
    and c: "c \<in> set (channel_defs db)" "col c = Some val"
    and c_only: "\<forall>c' \<in> set (channel_defs db). col c' = Some val \<longrightarrow> c' = c"
    and u: "u \<in> set (users db)" "u_user_id u = cd_user_id c"
    and u_only: "\<forall>u' \<in> set (users db). u_user_id u' = cd_user_id c \<longrightarrow> u' = u"
  shows "findChannel db column val =
           Inr (\<lparr>UserID = cd_user_id c, Name = cd_name c,
                 Announce = (cd_announce c \<and> u_announce u)\<rparr>, cd_key c)"
proof -
  let ?J = "left_join (channel_defs db) (users db)"
  let ?P = "\<lambda>y. col (fst y) = Some val"
  have mem: "(c, Some u) \<in> set ?J" using c(1) u by (simp add: left_join_Some)
  have P: "?P (c, Some u)" using c(2) by simp
  have only: "\<forall>y \<in> set ?J. ?P y \<longrightarrow> y = (c, Some u)"
  proof (intro ballI impI)
    fix y assume y: "y \<in> set ?J" and Py: "?P y"
    have fst: "fst y = c" using c_only y Py by (rule joined_unique_channel)
    have "snd y = Some u"
    proof (cases "snd y")
      case None
      then have "(c, None) \<in> set ?J" using y fst by (metis prod.collapse)
      then have "c \<in> set (channel_defs db) \<and>
                 (\<forall>u \<in> set (users db). u_user_id u \<noteq> cd_user_id c)"
        by (simp add: left_join_None)
      with u show ?thesis by blast
    next
      case (Some u')
      then have "(c, Some u') \<in> set ?J" using y fst by (metis prod.collapse)
      then have "u' \<in> set (users db) \<and> u_user_id u' = cd_user_id c"
        by (simp add: left_join_Some)
      with u_only have "u' = u" by blast
      with Some show ?thesis by simp
    qed
    with fst show "y = (c, Some u)" by (metis prod.collapse)
  qed
  obtain rest where "filter ?P ?J = (c, Some u) # rest"
    using filter_all_same [OF mem P only] by blast
  then have f: "filter (\<lambda>(c, u). col c = Some val) ?J = (c, Some u) # rest"
    by (simp only: where_clause_fst)
  show ?thesis
    unfolding findChannel_def using conn col f
    by (cases "cd_announce c"; cases "u_announce u") simp_all
qed

lemma findChannel_no_owner:
  assumes conn: "conn_error db = None"
    and col: "where_column column = Some col"
    and c: "c \<in> set (channel_defs db)" "col c = Some val"
    and c_only: "\<forall>c' \<in> set (channel_defs db). col c' = Some val \<longrightarrow> c' = c"
    and no_u: "\<forall>u \<in> set (users db). u_user_id u \<noteq> cd_user_id c"
  shows "findChannel db column val =
           Inr (\<lparr>UserID = cd_user_id c, Name = cd_name c, Announce = False\<rparr>, cd_key c)"
proof -
  let ?J = "left_join (channel_defs db) (users db)"
  let ?P = "\<lambda>y. col (fst y) = Some val"
  have mem: "(c, None) \<in> set ?J" using c(1) no_u by (simp add: left_join_None)
  have P: "?P (c, None)" using c(2) by simp
  have only: "\<forall>y \<in> set ?J. ?P y \<longrightarrow> y = (c, None)"
  proof (intro ballI impI)
    fix y assume y: "y \<in> set ?J" and Py: "?P y"
    have fst: "fst y = c" using c_only y Py by (rule joined_unique_channel)
    have "snd y = None"
    proof (cases "snd y")
      case None
      then show ?thesis .
    next
      case (Some u')
      then have "(c, Some u') \<in> set ?J" using y fst by (metis prod.collapse)
      then have "u' \<in> set (users db) \<and> u_user_id u' = cd_user_id c"
        by (simp add: left_join_Some)
      with no_u show ?thesis by blast
    qed
    with fst show "y = (c, None)" by (metis prod.collapse)
  qed
  obtain rest where "filter ?P ?J = (c, None) # rest"
    using filter_all_same [OF mem P only] by blast
  then have f: "filter (\<lambda>(c, u). col c = Some val) ?J = (c, None) # rest"
    by (simp only: where_clause_fst)
  show ?thesis
    unfolding findChannel_def using conn col f
    by (cases "cd_announce c") simp_all
qed

lemma findChannel_row:
  assumes conn: "conn_error db = None"
    and col: "where_column column = Some col"
    and c: "c \<in> set (channel_defs db)" "col c = Some val"
    and c_only: "\<forall>c' \<in> set (channel_defs db). col c' = Some val \<longrightarrow> c' = c"
  shows "\<exists>a. findChannel db column val = Inr (a, cd_key c) \<and>
             UserID a = cd_user_id c \<and> Name a = cd_name c"
proof (cases "\<forall>u \<in> set (users db). u_user_id u \<noteq> cd_user_id c")
  case True
  show ?thesis
    using findChannel_no_owner [OF conn col c c_only True] by simp
next
  case False
  let ?J = "left_join (channel_defs db) (users db)"
  let ?P = "\<lambda>y. col (fst y) = Some val"
  from False obtain u where "u \<in> set (users db)" "u_user_id u = cd_user_id c" by blast
  then have "(c, Some u) \<in> set ?J" using c(1) by (simp add: left_join_Some)
  moreover have "?P (c, Some u)" using c(2) by simp
  ultimately have "(c, Some u) \<in> set (filter ?P ?J)" by simp
  then obtain y rest where f: "filter ?P ?J = y # rest"
    by (cases "filter ?P ?J") auto
  then have "y \<in> set (filter ?P ?J)" by simp
  then have "y \<in> set ?J" "?P y" by simp_all
  with c_only have fst: "fst y = c" by (rule joined_unique_channel)
  from f have "filter (\<lambda>(c, u). col c = Some val) ?J = (c, snd y) # rest"
    using fst by (simp only: where_clause_fst) (metis prod.collapse)
  then show ?thesis
    unfolding findChannel_def using conn col by simp
qed

lemma findChannel_miss:
  assumes conn: "conn_error db = None"
    and col: "where_column column = Some col"
    and none: "\<forall>c \<in> set (channel_defs db). col c \<noteq> Some val"
  shows "findChannel db column val = Inl ErrNoRows"
proof -
  let ?J = "left_join (channel_defs db) (users db)"
  have "\<forall>y \<in> set ?J. col (fst y) \<noteq> Some val"
  proof
    fix y assume "y \<in> set ?J"
    then have "(fst y, snd y) \<in> set ?J" by simp
    then have "fst y \<in> set (channel_defs db)" by (rule left_join_fst)
    with none show "col (fst y) \<noteq> Some val" by blast
  qed
  then have "filter (\<lambda>y. col (fst y) = Some val) ?J = []"
    by (simp add: filter_empty_conv)
  then have "filter (\<lambda>(c, u). col c = Some val) ?J = []"
    by (simp only: where_clause_fst)
  then show ?thesis unfolding findChannel_def using conn col by simp
qed

lemma where_column_name: "where_column ''name'' = Some (\<lambda>c. Some (cd_name c))"
  by (simp add: where_column_def)

lemma where_column_ftl_id: "where_column ''ftl_id'' = Some cd_ftl_id"
  by (simp add: where_column_def)

subsection \<open>The two verifications, by outcome of the lookup\<close>

lemma name_unique:
  assumes "distinct (map cd_name cs)" "c \<in> set cs"
  shows "\<forall>c' \<in> set cs. Some (cd_name c') = Some (cd_name c) \<longrightarrow> c' = c"
proof -
  have "inj_on cd_name (set cs)" using assms(1) by (simp add: distinct_map)
  then show ?thesis using assms(2) by (auto dest: inj_onD)
qed

lemma verifyRTMP_hit:
  assumes "findChannel db ''name'' (path_Base (Path u)) = Inr (a, k)"
  shows "verifyRTMP db u =
           ([FindChannel ''name'' (path_Base (Path u)),
             HmacEqual (bytes (Values_Get (Query u) ''key'')) (bytes k)],
            if Values_Get (Query u) ''key'' = k then Inr a else Inl ErrUserNotFound)"
  using assms by (simp add: verifyRTMP_def Let_def hmac_Equal_iff bytes_inj)

lemma verifyRTMP_miss:
  assumes "findChannel db ''name'' (path_Base (Path u)) = Inl e"
  shows "verifyRTMP db u =
           ([FindChannel ''name'' (path_Base (Path u))],
            Inl (if e = ErrNoRows then ErrUserNotFound else e))"
  using assms by (simp add: verifyRTMP_def Let_def)

lemma verifyFTL_hit:
  assumes "findChannel db ''ftl_id'' channelID = Inr (a, k)"
  shows "verifyFTL H db channelID nonce provided =
           (if provided = H (bytes k) nonce
            then ([FindChannel ''ftl_id'' channelID, HmacEqual (H (bytes k) nonce) provided], Inr a)
            else ([FindChannel ''ftl_id'' channelID, HmacEqual (H (bytes k) nonce) provided,
                   LogPrintf (''error: hmac digest mismatch for FTL channel '' @ Name a)],
                  Inl ErrUserNotFound))"
  using assms by (auto simp: verifyFTL_def Let_def hmac_Equal_iff)

lemma verifyFTL_miss:
  assumes "findChannel db ''ftl_id'' channelID = Inl e"
  shows "verifyFTL H db channelID nonce provided =
           ([FindChannel ''ftl_id'' channelID],
            Inl (if e = ErrNoRows then ErrUserNotFound else e))"
  using assms by (simp add: verifyFTL_def Let_def)

subsection \<open>RTMP authentication\<close>

text \<open>
  Claim C1. While the store answers and channel names are unique: when a channel has the
  name taken from the URL and the \<open>key\<close> query value equals its stored key,
  \<open>verifyRTMP\<close> succeeds and returns that channel's authorization; when the key
  differs, or when no channel has the name, it fails with \<open>ErrUserNotFound\<close>, the
  same error in both cases.
\<close>

theorem verifyRTMP_authenticates:
  assumes conn: "conn_error db = None"
    and uniq: "distinct (map cd_name (channel_defs db))"
  shows "(\<forall>c \<in> set (channel_defs db). cd_name c = path_Base (Path u) \<longrightarrow>
            (if Values_Get (Query u) ''key'' = cd_key c
             then \<exists>a. snd (verifyRTMP db u) = Inr a \<and> UserID a = cd_user_id c \<and> Name a = cd_name c
             else snd (verifyRTMP db u) = Inl ErrUserNotFound)) \<and>
         ((\<forall>c \<in> set (channel_defs db). cd_name c \<noteq> path_Base (Path u)) \<longrightarrow>
            snd (verifyRTMP db u) = Inl ErrUserNotFound)"
proof (intro conjI ballI impI)
  fix c assume c: "c \<in> set (channel_defs db)" and n: "cd_name c = path_Base (Path u)"
  have only: "\<forall>c' \<in> set (channel_defs db). Some (cd_name c') = Some (path_Base (Path u)) \<longrightarrow> c' = c"
    using name_unique [OF uniq c] n by simp
  obtain a where a: "findChannel db ''name'' (path_Base (Path u)) = Inr (a, cd_key c)"
      "UserID a = cd_user_id c" "Name a = cd_name c"
    using findChannel_row [OF conn where_column_name c _ only] n by auto
  show "if Values_Get (Query u) ''key'' = cd_key c
        then \<exists>a. snd (verifyRTMP db u) = Inr a \<and> UserID a = cd_user_id c \<and> Name a = cd_name c
        else snd (verifyRTMP db u) = Inl ErrUserNotFound"
    using a by (simp add: verifyRTMP_hit)
next
  assume "\<forall>c \<in> set (channel_defs db). cd_name c \<noteq> path_Base (Path u)"
  then have "\<forall>c \<in> set (channel_defs db). Some (cd_name c) \<noteq> Some (path_Base (Path u))" by simp
  then have "findChannel db ''name'' (path_Base (Path u)) = Inl ErrNoRows"
    by (rule findChannel_miss [OF conn where_column_name])
  then show "snd (verifyRTMP db u) = Inl ErrUserNotFound"
    by (simp add: verifyRTMP_miss)
qed

lemma sample_db_simps:
  "conn_error sample_db = None"
  "distinct (map cd_name (channel_defs sample_db))"
  by (simp_all add: sample_db_def)

lemma sample_path: "path_Base ''/live/alice'' = ''alice''" "path_Base ''/live/carol'' = ''carol''"
  by (simp_all add: path_Base_def)

theorem verifyRTMP_authenticates_witness:
  "conn_error sample_db = None \<and> distinct (map cd_name (channel_defs sample_db)) \<and>
   snd (verifyRTMP sample_db (sample_url ''/live/alice'' ''k-alice'')) =
     Inr \<lparr>UserID = ''u1'', Name = ''alice'', Announce = True\<rparr> \<and>
   snd (verifyRTMP sample_db (sample_url ''/live/alice'' ''k-alicf'')) = Inl ErrUserNotFound \<and>
   snd (verifyRTMP sample_db (sample_url ''/live/carol'' ''k-alice'')) = Inl ErrUserNotFound"
proof -
  have f: "findChannel sample_db ''name'' ''alice'' =
             Inr (\<lparr>UserID = ''u1'', Name = ''alice'', Announce = True\<rparr>, ''k-alice'')"
    by (simp add: findChannel_def sample_db_def where_column_def left_join_def)
  show ?thesis
    using verifyRTMP_authenticates [OF sample_db_simps, of "sample_url ''/live/alice'' ''k-alice''"]
      verifyRTMP_authenticates [OF sample_db_simps, of "sample_url ''/live/alice'' ''k-alicf''"]
      verifyRTMP_authenticates [OF sample_db_simps, of "sample_url ''/live/carol'' ''k-alice''"]
    by (simp add: sample_db_simps sample_url_def sample_path Values_Get_def verifyRTMP_hit f)
      (simp add: sample_db_def)
qed

subsection \<open>When the secret is compared\<close>

text \<open>
  Claim C2, as amended. In both verifications the comparison is made exactly when the
  lookup returns a row. When the lookup returns an error the function returns at once:
  the only call made is the lookup, no comparison takes place, and the result is
  \<open>ErrUserNotFound\<close> for a missing row and the store's own error otherwise.
\<close>

theorem comparison_only_after_lookup_hit:
  "((\<exists>x y. HmacEqual x y \<in> set (fst (verifyRTMP db u))) \<longleftrightarrow>
      (\<exists>r. findChannel db ''name'' (path_Base (Path u)) = Inr r)) \<and>
   ((\<exists>x y. HmacEqual x y \<in> set (fst (verifyFTL hmac_sha512 db channelID nonce provided))) \<longleftrightarrow>
      (\<exists>r. findChannel db ''ftl_id'' channelID = Inr r)) \<and>
   (\<forall>e. findChannel db ''name'' (path_Base (Path u)) = Inl e \<longrightarrow>
      verifyRTMP db u =
        ([FindChannel ''name'' (path_Base (Path u))],
         Inl (if e = ErrNoRows then ErrUserNotFound else e))) \<and>
   (\<forall>e. findChannel db ''ftl_id'' channelID = Inl e \<longrightarrow>
      verifyFTL hmac_sha512 db channelID nonce provided =
        ([FindChannel ''ftl_id'' channelID],
         Inl (if e = ErrNoRows then ErrUserNotFound else e)))"
proof (intro conjI allI impI)
  show "(\<exists>x y. HmacEqual x y \<in> set (fst (verifyRTMP db u))) \<longleftrightarrow>
      (\<exists>r. findChannel db ''name'' (path_Base (Path u)) = Inr r)"
  proof (cases "findChannel db ''name'' (path_Base (Path u))")
    case (Inl e)
    then show ?thesis by (simp add: verifyRTMP_miss)
  next
    case (Inr r)
    obtain a k where "r = (a, k)" by (cases r)
    with Inr show ?thesis by (simp add: verifyRTMP_hit)
  qed
next
  show "(\<exists>x y. HmacEqual x y \<in> set (fst (verifyFTL hmac_sha512 db channelID nonce provided))) \<longleftrightarrow>
      (\<exists>r. findChannel db ''ftl_id'' channelID = Inr r)"
  proof (cases "findChannel db ''ftl_id'' channelID")
    case (Inl e)
    then show ?thesis by (simp add: verifyFTL_miss)
  next
    case (Inr r)
    obtain a k where "r = (a, k)" by (cases r)
    with Inr show ?thesis by (simp add: verifyFTL_hit)
  qed
next
  fix e assume "findChannel db ''name'' (path_Base (Path u)) = Inl e"
  then show "verifyRTMP db u =
        ([FindChannel ''name'' (path_Base (Path u))],
         Inl (if e = ErrNoRows then ErrUserNotFound else e))"
    by (rule verifyRTMP_miss)
next
  fix e assume "findChannel db ''ftl_id'' channelID = Inl e"
  then show "verifyFTL hmac_sha512 db channelID nonce provided =
        ([FindChannel ''ftl_id'' channelID],
         Inl (if e = ErrNoRows then ErrUserNotFound else e))"
    by (rule verifyFTL_miss)
qed

lemma sample_miss:
  "findChannel sample_db ''name'' ''carol'' = Inl ErrNoRows"
  "findChannel sample_db ''ftl_id'' ''9'' = Inl ErrNoRows"
  by (simp_all add: findChannel_def sample_db_def where_column_def left_join_def)

theorem comparison_only_after_lookup_hit_witness:
  "verifyRTMP sample_db (sample_url ''/live/carol'' ''k-alice'') =
     ([FindChannel ''name'' ''carol''], Inl ErrUserNotFound) \<and>
   verifyFTL sample_mac sample_db ''9'' [1, 2] [3] =
     ([FindChannel ''ftl_id'' ''9''], Inl ErrUserNotFound)"
proof -
  let ?u = "sample_url ''/live/carol'' ''k-alice''"
  have p: "path_Base (Path ?u) = ''carol''"
    by (simp add: sample_url_def sample_path)
  note inst = comparison_only_after_lookup_hit [of sample_db ?u sample_mac "''9''" "[1, 2]" "[3]"]
  have r: "\<forall>e. findChannel sample_db ''name'' (path_Base (Path ?u)) = Inl e \<longrightarrow>
      verifyRTMP sample_db ?u =
        ([FindChannel ''name'' (path_Base (Path ?u))],
         Inl (if e = ErrNoRows then ErrUserNotFound else e))"
    using inst by (rule conjunct1 [OF conjunct2 [OF conjunct2]])
  have f: "\<forall>e. findChannel sample_db ''ftl_id'' ''9'' = Inl e \<longrightarrow>
      verifyFTL sample_mac sample_db ''9'' [1, 2] [3] =
        ([FindChannel ''ftl_id'' ''9''],
         Inl (if e = ErrNoRows then ErrUserNotFound else e))"
    using inst by (rule conjunct2 [OF conjunct2 [OF conjunct2]])
  have "verifyRTMP sample_db ?u = ([FindChannel ''name'' ''carol''], Inl ErrUserNotFound)"
    using r [THEN spec, of ErrNoRows] sample_miss(1) by (simp add: p)
  moreover have "verifyFTL sample_mac sample_db ''9'' [1, 2] [3] =
     ([FindChannel ''ftl_id'' ''9''], Inl ErrUserNotFound)"
    using f [THEN spec, of ErrNoRows] sample_miss(2) by simp
  ultimately show ?thesis by (rule conjI)
qed

text \<open>
  Claim C2 as stated fails: for a name and an FTL id that no channel has, the lookup is
  the only call each verification makes, so no comparison, real or dummy, is performed
  on a lookup miss.
\<close>

theorem comparison_skipped_on_miss_counterexample:
  "fst (verifyRTMP sample_db (sample_url ''/live/carol'' ''k-alice'')) =
     [FindChannel ''name'' ''carol''] \<and>
   fst (verifyFTL sample_mac sample_db ''9'' [1, 2] [3]) = [FindChannel ''ftl_id'' ''9'']"
proof -
  have "path_Base (Path (sample_url ''/live/carol'' ''k-alice'')) = ''carol''"
    by (simp add: sample_url_def sample_path)
  then have "findChannel sample_db ''name'' (path_Base (Path (sample_url ''/live/carol'' ''k-alice''))) =
      Inl ErrNoRows"
    using sample_miss(1) by simp
  then have "fst (verifyRTMP sample_db (sample_url ''/live/carol'' ''k-alice'')) =
     [FindChannel ''name'' ''carol'']"
    by (simp add: verifyRTMP_miss sample_url_def sample_path)
  moreover have "fst (verifyFTL sample_mac sample_db ''9'' [1, 2] [3]) = [FindChannel ''ftl_id'' ''9'']"
    by (simp add: verifyFTL_miss [OF sample_miss(2)])
  ultimately show ?thesis by (rule conjI)
qed

subsection \<open>FTL authentication\<close>

lemma flip_bit_differs:
  fixes b :: byte
  assumes "j < 8"
  shows "b XOR push_bit j 1 \<noteq> b"
proof
  assume "b XOR push_bit j 1 = b"
  then have "b XOR (b XOR push_bit j 1) = b XOR b" by simp
  then have "(push_bit j 1 :: byte) = 0" by (simp flip: xor.assoc)
  then have "(2 :: byte) ^ j = 0" by (simp add: push_bit_eq_mult)
  then show False using assms by (simp add: exp_eq_zero_iff)
qed

lemma flip_digest_differs:
  fixes d :: "byte list"
  assumes "i < length d" "j < 8"
  shows "d[i := d ! i XOR push_bit j 1] \<noteq> d"
proof
  assume "d[i := d ! i XOR push_bit j 1] = d"
  then have "d[i := d ! i XOR push_bit j 1] ! i = d ! i" by simp
  then have "d ! i XOR push_bit j 1 = d ! i" using assms(1) by simp
  then show False using flip_bit_differs [OF assms(2)] by blast
qed

text \<open>
  Claim C5. While the store answers and one channel has the given FTL id: when the
  provided digest equals the keyed digest of the nonce under the channel's key,
  \<open>verifyFTL\<close> succeeds and returns that channel's authorization; any other digest,
  in particular the right digest with any single bit of any byte flipped, fails with
  \<open>ErrUserNotFound\<close>. The comparison is the library's branch-free accumulation
  \<open>hmac_Equal\<close>.
\<close>

theorem verifyFTL_authenticates:
  assumes conn: "conn_error db = None"
    and c: "c \<in> set (channel_defs db)" "cd_ftl_id c = Some channelID"
    and only: "\<forall>c' \<in> set (channel_defs db). cd_ftl_id c' = Some channelID \<longrightarrow> c' = c"
    and d: "d = hmac_sha512 (bytes (cd_key c)) nonce"
  shows "(\<exists>a. snd (verifyFTL hmac_sha512 db channelID nonce d) = Inr a \<and>
              UserID a = cd_user_id c \<and> Name a = cd_name c) \<and>
         (\<forall>provided. provided \<noteq> d \<longrightarrow>
            snd (verifyFTL hmac_sha512 db channelID nonce provided) = Inl ErrUserNotFound) \<and>
         (\<forall>i < length d. \<forall>j < 8.
            snd (verifyFTL hmac_sha512 db channelID nonce (d[i := d ! i XOR push_bit j 1])) =
              Inl ErrUserNotFound)"
proof -
  obtain a where a: "findChannel db ''ftl_id'' channelID = Inr (a, cd_key c)"
      "UserID a = cd_user_id c" "Name a = cd_name c"
    using findChannel_row [OF conn where_column_ftl_id c only] by auto
  have ok: "\<exists>a. snd (verifyFTL hmac_sha512 db channelID nonce d) = Inr a \<and>
              UserID a = cd_user_id c \<and> Name a = cd_name c"
    using a d by (simp add: verifyFTL_hit)
  have bad: "snd (verifyFTL hmac_sha512 db channelID nonce provided) = Inl ErrUserNotFound"
    if "provided \<noteq> d" for provided
    using a d that by (simp add: verifyFTL_hit)
  have flip: "snd (verifyFTL hmac_sha512 db channelID nonce (d[i := d ! i XOR push_bit j 1])) =
                Inl ErrUserNotFound"
    if "i < length d" "j < 8" for i j
    using bad [OF flip_digest_differs [OF that]] .
  show ?thesis using ok bad flip by blast
qed

lemma sample_ftl:
  "findChannel sample_db ''ftl_id'' ''7'' =
     Inr (\<lparr>UserID = ''u1'', Name = ''alice'', Announce = True\<rparr>, ''k-alice'')"
  by (simp add: findChannel_def sample_db_def where_column_def left_join_def)

theorem verifyFTL_authenticates_witness:
  "snd (verifyFTL sample_mac sample_db ''7'' [1, 2] (bytes ''k-alice'' @ [1, 2])) =
     Inr \<lparr>UserID = ''u1'', Name = ''alice'', Announce = True\<rparr> \<and>
   snd (verifyFTL sample_mac sample_db ''7'' [1, 2] (bytes ''k-alice'' @ [1, 3])) =
     Inl ErrUserNotFound"
proof -
  let ?c = "\<lparr>cd_user_id = ''u1'', cd_name = ''alice'', cd_key = ''k-alice'', cd_announce = True,
             cd_ftl_id = Some ''7''\<rparr>"
  let ?d = "bytes ''k-alice'' @ [1, 2]"
  have conn: "conn_error sample_db = None" by (simp add: sample_db_def)
  have c: "?c \<in> set (channel_defs sample_db)" "cd_ftl_id ?c = Some ''7''"
    by (simp_all add: sample_db_def)
  have only: "\<forall>c' \<in> set (channel_defs sample_db). cd_ftl_id c' = Some ''7'' \<longrightarrow> c' = ?c"
    by (simp add: sample_db_def)
  have d: "?d = sample_mac (bytes (cd_key ?c)) [1, 2]"
    by (simp add: sample_mac_def)
  note inst = verifyFTL_authenticates [of sample_db ?c "''7''" ?d sample_mac "[1, 2]",
      OF conn c only d]
  have ne: "bytes ''k-alice'' @ [1, 3] \<noteq> ?d" by simp
  have bad: "\<forall>provided. provided \<noteq> ?d \<longrightarrow>
      snd (verifyFTL sample_mac sample_db ''7'' [1, 2] provided) = Inl ErrUserNotFound"
    using inst by (rule conjunct1 [OF conjunct2])
  have second: "snd (verifyFTL sample_mac sample_db ''7'' [1, 2] (bytes ''k-alice'' @ [1, 3])) =
     Inl ErrUserNotFound"
    using ne bad [THEN spec, of "bytes ''k-alice'' @ [1, 3]"] by (rule rev_mp)
  have first: "snd (verifyFTL sample_mac sample_db ''7'' [1, 2] ?d) =
     Inr \<lparr>UserID = ''u1'', Name = ''alice'', Announce = True\<rparr>"
    by (simp add: verifyFTL_hit [OF sample_ftl] sample_mac_def)
  show ?thesis using first second by (rule conjI)
qed

subsection \<open>The effective announce flag\<close>

text \<open>
  Claim C6. While the store answers, for the one channel a lookup selects and the one
  preference row of its owner, the lookup returns the authorization whose announce flag
  is the conjunction of the channel's flag and the owner's flag. A successful
  \<open>verifyRTMP\<close> or \<open>verifyFTL\<close> returns that same authorization and makes one
  registry call, the lookup itself.
\<close>

theorem effective_announce_is_conjunction:
  assumes conn: "conn_error db = None"
    and col: "where_column column = Some col"
    and c: "c \<in> set (channel_defs db)" "col c = Some val"
    and c_only: "\<forall>c' \<in> set (channel_defs db). col c' = Some val \<longrightarrow> c' = c"
    and u: "u \<in> set (users db)" "u_user_id u = cd_user_id c"
    and u_only: "\<forall>u' \<in> set (users db). u_user_id u' = cd_user_id c \<longrightarrow> u' = u"
    and auth: "auth = \<lparr>UserID = cd_user_id c, Name = cd_name c,
                       Announce = (cd_announce c \<and> u_announce u)\<rparr>"
  shows "findChannel db column val = Inr (auth, cd_key c) \<and>
         (column = ''name'' \<and> path_Base (Path url) = val \<and> Values_Get (Query url) ''key'' = cd_key c \<longrightarrow>
            verifyRTMP db url =
              ([FindChannel ''name'' val, HmacEqual (bytes (cd_key c)) (bytes (cd_key c))],
               Inr auth)) \<and>
         (column = ''ftl_id'' \<and> provided = hmac_sha512 (bytes (cd_key c)) nonce \<longrightarrow>
            verifyFTL hmac_sha512 db val nonce provided =
              ([FindChannel ''ftl_id'' val, HmacEqual provided provided], Inr auth))"
proof -
  have f: "findChannel db column val = Inr (auth, cd_key c)"
    unfolding auth by (rule findChannel_owner [OF conn col c c_only u u_only])
  have rtmp: "verifyRTMP db url =
              ([FindChannel ''name'' val, HmacEqual (bytes (cd_key c)) (bytes (cd_key c))],
               Inr auth)"
    if "column = ''name''" "path_Base (Path url) = val" "Values_Get (Query url) ''key'' = cd_key c"
  proof -
    have "findChannel db ''name'' (path_Base (Path url)) = Inr (auth, cd_key c)"
      using f that(1,2) by simp
    then show ?thesis using that(2,3) by (simp add: verifyRTMP_hit)
  qed
  have ftl: "verifyFTL hmac_sha512 db val nonce provided =
              ([FindChannel ''ftl_id'' val, HmacEqual provided provided], Inr auth)"
    if "column = ''ftl_id''" "provided = hmac_sha512 (bytes (cd_key c)) nonce"
  proof -
    have "findChannel db ''ftl_id'' val = Inr (auth, cd_key c)"
      using f that(1) by simp
    then show ?thesis using that(2) by (simp add: verifyFTL_hit)
  qed
  show ?thesis using f rtmp ftl by blast
qed

theorem effective_announce_is_conjunction_witness:
  "findChannel (flags_db True True) ''name'' ''alice'' =
     Inr (\<lparr>UserID = ''u1'', Name = ''alice'', Announce = True\<rparr>, ''k-alice'') \<and>
   findChannel (flags_db True False) ''name'' ''alice'' =
     Inr (\<lparr>UserID = ''u1'', Name = ''alice'', Announce = False\<rparr>, ''k-alice'') \<and>
   findChannel (flags_db False True) ''name'' ''alice'' =
     Inr (\<lparr>UserID = ''u1'', Name = ''alice'', Announce = False\<rparr>, ''k-alice'') \<and>
   findChannel (flags_db False False) ''name'' ''alice'' =
     Inr (\<lparr>UserID = ''u1'', Name = ''alice'', Announce = False\<rparr>, ''k-alice'')"
proof -
  have inst: "findChannel (flags_db ca ua) ''name'' ''alice'' =
          Inr (\<lparr>UserID = ''u1'', Name = ''alice'', Announce = (ca \<and> ua)\<rparr>, ''k-alice'')" for ca ua
  proof -
    let ?c = "\<lparr>cd_user_id = ''u1'', cd_name = ''alice'', cd_key = ''k-alice'', cd_announce = ca,
               cd_ftl_id = Some ''7''\<rparr>"
    let ?u = "\<lparr>u_user_id = ''u1'', u_announce = ua\<rparr>"
    let ?a = "\<lparr>UserID = cd_user_id ?c, Name = cd_name ?c, Announce = (cd_announce ?c \<and> u_announce ?u)\<rparr>"
    have conn: "conn_error (flags_db ca ua) = None" by (simp add: flags_db_def)
    have c: "?c \<in> set (channel_defs (flags_db ca ua))" "Some (cd_name ?c) = Some ''alice''"
      by (simp_all add: flags_db_def)
    have c_only: "\<forall>c' \<in> set (channel_defs (flags_db ca ua)). Some (cd_name c') = Some ''alice'' \<longrightarrow> c' = ?c"
      by (simp add: flags_db_def)
    have u: "?u \<in> set (users (flags_db ca ua))" "u_user_id ?u = cd_user_id ?c"
      by (simp_all add: flags_db_def)
    have u_only: "\<forall>u' \<in> set (users (flags_db ca ua)). u_user_id u' = cd_user_id ?c \<longrightarrow> u' = ?u"
      by (simp add: flags_db_def)
    have "findChannel (flags_db ca ua) ''name'' ''alice'' = Inr (?a, cd_key ?c)"
      using effective_announce_is_conjunction [OF conn where_column_name c c_only u u_only refl]
      by (rule conjunct1)
    then show ?thesis by simp
  qed
  show ?thesis
    using inst [of True True] inst [of True False] inst [of False True] inst [of False False]
    by simp
qed

text \<open>
  Claim C10. While the store answers, for the one channel a lookup selects, when no
  preference row exists for its owner the lookup still succeeds and the announce flag it
  returns is false, whatever the channel's own flag is; a verification that succeeds on
  that channel returns the authorization with the flag false.
\<close>

theorem missing_owner_preference_not_announced:
  assumes conn: "conn_error db = None"
    and col: "where_column column = Some col"
    and c: "c \<in> set (channel_defs db)" "col c = Some val"
    and c_only: "\<forall>c' \<in> set (channel_defs db). col c' = Some val \<longrightarrow> c' = c"
    and no_u: "\<forall>u \<in> set (users db). u_user_id u \<noteq> cd_user_id c"
    and auth: "auth = \<lparr>UserID = cd_user_id c, Name = cd_name c, Announce = False\<rparr>"
  shows "findChannel db column val = Inr (auth, cd_key c) \<and>
         (column = ''name'' \<and> path_Base (Path url) = val \<and>
          Values_Get (Query url) ''key'' = cd_key c \<longrightarrow>
            snd (verifyRTMP db url) = Inr auth) \<and>
         (column = ''ftl_id'' \<and> provided = hmac_sha512 (bytes (cd_key c)) nonce \<longrightarrow>
            snd (verifyFTL hmac_sha512 db val nonce provided) = Inr auth)"
proof -
  have f: "findChannel db column val = Inr (auth, cd_key c)"
    unfolding auth by (rule findChannel_no_owner [OF conn col c c_only no_u])
  have rtmp: "snd (verifyRTMP db url) = Inr auth"
    if "column = ''name''" "path_Base (Path url) = val" "Values_Get (Query url) ''key'' = cd_key c"
  proof -
    have "findChannel db ''name'' (path_Base (Path url)) = Inr (auth, cd_key c)"
      using f that(1,2) by simp
    then show ?thesis using that(3) by (simp add: verifyRTMP_hit)
  qed
  have ftl: "snd (verifyFTL hmac_sha512 db val nonce provided) = Inr auth"
    if "column = ''ftl_id''" "provided = hmac_sha512 (bytes (cd_key c)) nonce"
  proof -
    have "findChannel db ''ftl_id'' val = Inr (auth, cd_key c)"
      using f that(1) by simp
    then show ?thesis using that(2) by (simp add: verifyFTL_hit)
  qed
  show ?thesis using f rtmp ftl by blast
qed

theorem missing_owner_preference_not_announced_witness:
  "findChannel sample_db ''name'' ''bob'' =
     Inr (\<lparr>UserID = ''u2'', Name = ''bob'', Announce = False\<rparr>, ''k-bob'') \<and>
   snd (verifyRTMP sample_db (sample_url ''/live/bob'' ''k-bob'')) =
     Inr \<lparr>UserID = ''u2'', Name = ''bob'', Announce = False\<rparr>"
proof -
  let ?c = "\<lparr>cd_user_id = ''u2'', cd_name = ''bob'', cd_key = ''k-bob'', cd_announce = True,
          cd_ftl_id = None\<rparr>"
  let ?u = "sample_url ''/live/bob'' ''k-bob''"
  have conn: "conn_error sample_db = None" by (simp add: sample_db_def)
  have c: "?c \<in> set (channel_defs sample_db)" "Some (cd_name ?c) = Some ''bob''"
    by (simp_all add: sample_db_def)
  have only: "\<forall>c' \<in> set (channel_defs sample_db). Some (cd_name c') = Some ''bob'' \<longrightarrow> c' = ?c"
    by (simp add: sample_db_def)
  have no_u: "\<forall>u \<in> set (users sample_db). u_user_id u \<noteq> cd_user_id ?c"
    by (simp add: sample_db_def)
  have req: "''name'' = ''name'' \<and> path_Base (Path ?u) = ''bob'' \<and>
      Values_Get (Query ?u) ''key'' = cd_key ?c"
    by (simp add: sample_url_def path_Base_def Values_Get_def)
  note inst = missing_owner_preference_not_announced
    [OF conn where_column_name c only no_u refl, of ?u]
  have "findChannel sample_db ''name'' ''bob'' =
          Inr (\<lparr>UserID = cd_user_id ?c, Name = cd_name ?c, Announce = False\<rparr>, cd_key ?c)"
    using inst by (rule conjunct1)
  moreover have "snd (verifyRTMP sample_db ?u) =
      Inr \<lparr>UserID = cd_user_id ?c, Name = cd_name ?c, Announce = False\<rparr>"
    using inst [THEN conjunct2, THEN conjunct1, THEN mp, OF req] .
  ultimately show ?thesis by simp
qed

subsection \<open>Updating and deleting a channel\<close>

lemma update_untargeted:
  assumes "\<forall>c \<in> set cs. \<not> targets userID name c"
  shows "map (\<lambda>c. if targets userID name c then c\<lparr>cd_announce := announce\<rparr> else c) cs = cs"
    and "filter (targets userID name) cs = []"
    and "filter (\<lambda>c. \<not> targets userID name c) cs = cs"
  using assms by (simp_all add: map_idI filter_empty_conv filter_id_conv)

lemma update_targeted:
  assumes "c \<in> set cs" "targets userID name c"
  shows "length (filter (targets userID name) cs) \<noteq> 0"
proof -
  have "c \<in> set (filter (targets userID name) cs)" using assms by simp
  then have "filter (targets userID name) cs \<noteq> []" by (metis empty_iff empty_set)
  then show ?thesis by simp
qed

text \<open>
  Claim C8, as amended. While the store answers: when no row has the given owner and
  name, \<open>updateChannel\<close> fails with \<open>ErrNoRows\<close> and leaves the store as it was,
  while \<open>deleteChannel\<close> returns no error and leaves the store as it was; when such a
  row exists, \<open>updateChannel\<close> returns no error and sets the announce flag of exactly
  the targeted rows, and \<open>deleteChannel\<close> returns no error and removes exactly them.
\<close>

theorem update_and_delete_by_row_presence:
  assumes conn: "conn_error db = None"
  shows "((\<forall>c \<in> set (channel_defs db). \<not> targets userID name c) \<longrightarrow>
            updateChannel db userID name announce = (db, Some ErrNoRows) \<and>
            deleteChannel db userID name = (db, None)) \<and>
         ((\<exists>c \<in> set (channel_defs db). targets userID name c) \<longrightarrow>
            snd (updateChannel db userID name announce) = None \<and>
            channel_defs (fst (updateChannel db userID name announce)) =
              map (\<lambda>c. if cd_user_id c = userID \<and> cd_name c = name
                        then c\<lparr>cd_announce := announce\<rparr> else c) (channel_defs db) \<and>
            snd (deleteChannel db userID name) = None \<and>
            channel_defs (fst (deleteChannel db userID name)) =
              filter (\<lambda>c. \<not> (cd_user_id c = userID \<and> cd_name c = name)) (channel_defs db))"
proof (intro conjI impI)
  assume none: "\<forall>c \<in> set (channel_defs db). \<not> targets userID name c"
  show "updateChannel db userID name announce = (db, Some ErrNoRows)"
    using conn by (simp add: updateChannel_def exec_update_def update_untargeted [OF none])
  show "deleteChannel db userID name = (db, None)"
    using conn by (simp add: deleteChannel_def exec_delete_def update_untargeted [OF none])
next
  assume "\<exists>c \<in> set (channel_defs db). targets userID name c"
  then obtain c where c: "c \<in> set (channel_defs db)" "targets userID name c" by blast
  note hit = update_targeted [OF c]
  show "snd (updateChannel db userID name announce) = None"
    using conn hit by (simp add: updateChannel_def exec_update_def)
  show "channel_defs (fst (updateChannel db userID name announce)) =
              map (\<lambda>c. if cd_user_id c = userID \<and> cd_name c = name
                        then c\<lparr>cd_announce := announce\<rparr> else c) (channel_defs db)"
    using conn hit by (simp add: updateChannel_def exec_update_def targets_def)
  show "snd (deleteChannel db userID name) = None"
    using conn by (simp add: deleteChannel_def exec_delete_def)
  show "channel_defs (fst (deleteChannel db userID name)) =
              filter (\<lambda>c. \<not> (cd_user_id c = userID \<and> cd_name c = name)) (channel_defs db)"
    using conn by (simp add: deleteChannel_def exec_delete_def targets_def)
qed

theorem update_and_delete_by_row_presence_witness:
  "updateChannel sample_db ''u1'' ''carol'' False = (sample_db, Some ErrNoRows) \<and>
   deleteChannel sample_db ''u1'' ''carol'' = (sample_db, None) \<and>
   snd (updateChannel sample_db ''u1'' ''alice'' False) = None \<and>
   map cd_announce (channel_defs (fst (updateChannel sample_db ''u1'' ''alice'' False))) =
     [False, True]"
proof -
  have conn: "conn_error sample_db = None" by (simp add: sample_db_def)
  have none: "\<forall>c \<in> set (channel_defs sample_db). \<not> targets ''u1'' ''carol'' c"
    by (simp add: sample_db_def targets_def)
  have some: "\<exists>c \<in> set (channel_defs sample_db). targets ''u1'' ''alice'' c"
    by (simp add: sample_db_def targets_def)
  note miss = update_and_delete_by_row_presence [OF conn, of "''u1''" "''carol''" False,
      THEN conjunct1, THEN mp, OF none]
  note hit = update_and_delete_by_row_presence [OF conn, of "''u1''" "''alice''" False,
      THEN conjunct2, THEN mp, OF some]
  have "map cd_announce (channel_defs (fst (updateChannel sample_db ''u1'' ''alice'' False))) =
     [False, True]"
    using hit by (simp add: sample_db_def)
  then show ?thesis using miss hit by simp
qed

text \<open>
  Claim C8 as stated fails for the delete: deleting a channel that does not exist
  returns no error.
\<close>

theorem delete_missing_row_counterexample:
  "deleteChannel sample_db ''u1'' ''carol'' = (sample_db, None)"
  by (simp add: deleteChannel_def exec_delete_def sample_db_def targets_def)

subsection \<open>The order of the liveness directory\<close>

lemma set_insert_by: "set (insert_by le x ys) = insert x (set ys)"
  by (induction ys) auto

lemma mset_insert_by: "mset (insert_by le x ys) = add_mset x (mset ys)"
  by (induction ys) auto

lemma mset_order_by: "mset (order_by le xs) = mset xs"
  by (induction xs) (simp_all add: mset_insert_by)

lemma sorted_insert_by:
  assumes total: "\<And>a b. le a b \<or> le b a"
    and trans: "\<And>a b c. le a b \<Longrightarrow> le b c \<Longrightarrow> le a c"
    and sorted: "sorted_wrt le ys"
  shows "sorted_wrt le (insert_by le x ys)"
  using sorted
proof (induction ys)
  case Nil
  then show ?case by simp
next
  case (Cons y ys)
  show ?case
  proof (cases "le x y")
    case True
    have "\<forall>z \<in> set ys. le x z"
    proof
      fix z assume "z \<in> set ys"
      then have "le y z" using Cons.prems by simp
      with True show "le x z" by (rule trans)
    qed
    then show ?thesis using True Cons.prems by simp
  next
    case False
    then have "le y x" using total [of x y] by simp
    moreover have "sorted_wrt le (insert_by le x ys)" using Cons by simp
    ultimately show ?thesis using False Cons.prems by (simp add: set_insert_by)
  qed
qed

lemma sorted_order_by:
  assumes total: "\<And>a b. le a b \<or> le b a"
    and trans: "\<And>a b c. le a b \<Longrightarrow> le b c \<Longrightarrow> le a c"
  shows "sorted_wrt le (order_by le xs)"
proof (induction xs)
  case Nil
  then show ?case by simp
next
  case (Cons x xs)
  then show ?case using sorted_insert_by [of le, OF total trans] by simp
qed

lemma row_le_total:
  assumes "\<forall>a b. collate a b \<or> collate b a"
  shows "row_le collate now r1 r2 \<or> row_le collate now r2 r1"
proof -
  have "collate (th_name r1) (th_name r2) \<or> collate (th_name r2) (th_name r1)"
    using assms by blast
  then show ?thesis unfolding row_le_def by linarith
qed

lemma row_le_trans:
  assumes "\<forall>a b c. collate a b \<longrightarrow> collate b c \<longrightarrow> collate a c"
    and "row_le collate now r1 r2" "row_le collate now r2 r3"
  shows "row_le collate now r1 r3"
proof -
  have t: "collate (th_name r1) (th_name r2) \<Longrightarrow> collate (th_name r2) (th_name r3) \<Longrightarrow>
      collate (th_name r1) (th_name r3)"
    using assms(1) by blast
  show ?thesis
    using assms(2,3) t unfolding row_le_def by (elim disjE conjE) simp_all
qed

text \<open>
  Claim C7. While the store answers and the collation is a total preorder on names,
  \<open>listChannels\<close> returns the liveness rows, each exactly once, ordered by the age
  \<open>now - updated\<close> floored at one minute, ascending, and among equal floored ages by
  name in the collation. At the sample data, channels updated 10, 70 and 200 seconds ago
  are listed in that order, and two channels both updated 5 seconds ago are listed by
  name.
\<close>

theorem listChannels_order:
  assumes conn: "conn_error db = None"
    and total: "\<forall>a b. collate a b \<or> collate b a"
    and trans: "\<forall>a b c. collate a b \<longrightarrow> collate b c \<longrightarrow> collate a c"
    and rows: "rows = order_by (row_le collate now) (thumbs db)"
  shows "listChannels collate now db = Inr (map scan_info rows) \<and>
         map info_Name (map scan_info rows) = map th_name rows \<and>
         mset rows = mset (thumbs db) \<and>
         sorted_wrt (\<lambda>r1 r2.
             max (now - th_updated r1) 60000000 < max (now - th_updated r2) 60000000 \<or>
             (max (now - th_updated r1) 60000000 = max (now - th_updated r2) 60000000 \<and>
              collate (th_name r1) (th_name r2))) rows"
proof -
  have eq: "row_le collate now = (\<lambda>r1 r2.
             max (now - th_updated r1) 60000000 < max (now - th_updated r2) 60000000 \<or>
             (max (now - th_updated r1) 60000000 = max (now - th_updated r2) 60000000 \<and>
              collate (th_name r1) (th_name r2)))"
    by (intro ext) (simp only: row_le_def age_floor_def minute_def)
  have "sorted_wrt (row_le collate now) rows"
    unfolding rows
    by (rule sorted_order_by [OF row_le_total [OF total] row_le_trans [OF trans]])
  then have "sorted_wrt (\<lambda>r1 r2.
             max (now - th_updated r1) 60000000 < max (now - th_updated r2) 60000000 \<or>
             (max (now - th_updated r1) 60000000 = max (now - th_updated r2) 60000000 \<and>
              collate (th_name r1) (th_name r2))) rows"
    unfolding eq .
  moreover have "listChannels collate now db = Inr (map scan_info rows)"
    using conn by (simp add: listChannels_def rows)
  moreover have "map info_Name (map scan_info rows) = map th_name rows"
    by (simp add: scan_info_def)
  moreover have "mset rows = mset (thumbs db)"
    by (simp add: rows mset_order_by)
  ultimately show ?thesis by simp
qed

lemma sample_orders:
  "order_by (row_le (\<le>) sample_now) (thumbs sample_db) =
     [\<lparr>th_name = ''A'', th_thumb = [], th_updated = 990000000\<rparr>,
      \<lparr>th_name = ''B'', th_thumb = [], th_updated = 930000000\<rparr>,
      \<lparr>th_name = ''C'', th_thumb = [], th_updated = 800000000\<rparr>]"
  "order_by (row_le (\<le>) sample_now) (thumbs sample_recent) =
     [\<lparr>th_name = ''A'', th_thumb = [], th_updated = 995000000\<rparr>,
      \<lparr>th_name = ''D'', th_thumb = [], th_updated = 995000000\<rparr>]"
  by (simp_all add: sample_db_def sample_recent_def sample_now_def row_le_def age_floor_def minute_def)

theorem listChannels_order_witness:
  "map info_Name (projr (listChannels (\<le>) sample_now sample_db)) = [''A'', ''B'', ''C''] \<and>
   map info_Name (projr (listChannels (\<le>) sample_now sample_recent)) = [''A'', ''D'']"
proof -
  have total: "\<forall>a b :: string. a \<le> b \<or> b \<le> a" by (simp add: linear)
  have trans: "\<forall>a b c :: string. a \<le> b \<longrightarrow> b \<le> c \<longrightarrow> a \<le> c" by auto
  have c1: "conn_error sample_db = None" by (simp add: sample_db_def)
  have c2: "conn_error sample_recent = None" by (simp add: sample_recent_def)
  note a = listChannels_order [OF c1 total trans refl, of sample_now, THEN conjunct1]
  note b = listChannels_order [OF c2 total trans refl, of sample_now, THEN conjunct1]
  show ?thesis
    by (simp add: a b sample_orders scan_info_def)
qed

subsection \<open>The OAuth callback\<close>

lemma tokenExchange_missing_code:
  assumes "FormValue req ''code'' = []"
  shows "tokenExchange s req = ([], Inl MissingCode)"
  using assms by (simp add: tokenExchange_def)

lemma tokenExchange_unseal_error:
  assumes "FormValue req ''code'' \<noteq> []"
    and "unseal (open_state s) req stateCookie = Inl e"
  shows "tokenExchange s req = ([SetCookie stateCookie None (- 1)], Inl e)"
  using assms by (simp add: tokenExchange_def Let_def)

lemma tokenExchange_mismatch:
  assumes "FormValue req ''code'' \<noteq> []"
    and "unseal (open_state s) req stateCookie = Inr st"
    and "st \<noteq> FormValue req ''state''"
  shows "tokenExchange s req = ([SetCookie stateCookie None (- 1)], Inl StateMismatch)"
  using assms by (simp add: tokenExchange_def Let_def hmac_Equal_iff bytes_inj)

lemma tokenExchange_verified:
  assumes "FormValue req ''code'' \<noteq> []"
    and "unseal (open_state s) req stateCookie = Inr (FormValue req ''state'')"
  shows "tokenExchange s req =
           ([SetCookie stateCookie None (- 1), ExchangeCall (FormValue req ''code'')],
            case Exchange s (FormValue req ''code'') of
              Inl msg \<Rightarrow> Inl (UpstreamError msg)
            | Inr token \<Rightarrow> Inr token)"
  using assms by (simp add: tokenExchange_def Let_def hmac_Equal_iff)

lemma tokenExchange_cases:
  obtains (missing) "FormValue req ''code'' = []"
  | (unsealed_error) e where "FormValue req ''code'' \<noteq> []"
      "unseal (open_state s) req stateCookie = Inl e"
  | (mismatch) st where "FormValue req ''code'' \<noteq> []"
      "unseal (open_state s) req stateCookie = Inr st" "st \<noteq> FormValue req ''state''"
  | (verified) "FormValue req ''code'' \<noteq> []"
      "unseal (open_state s) req stateCookie = Inr (FormValue req ''state'')"
proof (cases "FormValue req ''code'' = []")
  case True
  then show ?thesis by (rule missing)
next
  case code: False
  show ?thesis
  proof (cases "unseal (open_state s) req stateCookie")
    case (Inl e)
    with code show ?thesis by (rule unsealed_error)
  next
    case (Inr st)
    show ?thesis
    proof (cases "st = FormValue req ''state''")
      case True
      with code Inr show ?thesis using verified by simp
    next
      case False
      with code Inr show ?thesis by (rule mismatch)
    qed
  qed
qed

text \<open>
  Claim C3. When unsealing the state cookie fails, or the unsealed value differs from
  the \<open>state\<close> parameter, \<open>tokenExchange\<close> returns an error (with a code present:
  the unseal error, or \<open>StateMismatch\<close>), the provider is never called, neither for
  the exchange nor for the profile, and a configured callback answers 400
  \<open>oauth failure\<close>. Conversely an exchange call is made only when the cookie unseals
  to the received \<open>state\<close>, and then after the cookie has been cleared.
\<close>

theorem state_check_precedes_exchange:
  "((\<exists>e. unseal (open_state s) req stateCookie = Inl e) \<or>
    (\<exists>st. unseal (open_state s) req stateCookie = Inr st \<and> st \<noteq> FormValue req ''state'') \<longrightarrow>
      (\<exists>err. snd (tokenExchange s req) = Inl err) \<and>
      (FormValue req ''code'' \<noteq> [] \<longrightarrow>
         snd (tokenExchange s req) =
           Inl (case unseal (open_state s) req stateCookie of
                  Inl e \<Rightarrow> e | Inr st \<Rightarrow> StateMismatch)) \<and>
      (\<forall>code. ExchangeCall code \<notin> set (fst (tokenExchange s req))) \<and>
      (\<forall>code. ExchangeCall code \<notin> set (viewOauthCB s req)) \<and>
      (\<forall>token. LookupUserCall token \<notin> set (viewOauthCB s req)) \<and>
      (ClientID s \<noteq> [] \<longrightarrow> last (viewOauthCB s req) = HttpError ''oauth failure'' 400)) \<and>
   (\<forall>code. ExchangeCall code \<in> set (fst (tokenExchange s req)) \<longrightarrow>
      unseal (open_state s) req stateCookie = Inr (FormValue req ''state'') \<and>
      fst (tokenExchange s req) = [SetCookie stateCookie None (- 1), ExchangeCall code])"
proof (cases rule: tokenExchange_cases [where req = req and s = s])
  case missing
  then show ?thesis
    by (auto simp: tokenExchange_missing_code viewOauthCB_def)
next
  case (unsealed_error e)
  then show ?thesis
    by (auto simp: tokenExchange_unseal_error viewOauthCB_def)
next
  case (mismatch st)
  then show ?thesis
    by (auto simp: tokenExchange_mismatch viewOauthCB_def)
next
  case verified
  then show ?thesis
    by (auto simp: tokenExchange_verified)
qed


lemma sample_callbacks:
  "FormValue callback_mismatch ''code'' = ''c1''"
  "FormValue callback_mismatch ''state'' = ''s2''"
  "unseal (open_state sample_server) callback_mismatch stateCookie = Inr ''s1''"
  "FormValue callback_no_cookie ''code'' = ''c1''"
  "unseal (open_state sample_server) callback_no_cookie stateCookie = Inl ErrNoCookie"
  "FormValue callback_ok ''code'' = ''c1''"
  "FormValue callback_ok ''state'' = ''s1''"
  "unseal (open_state sample_server) callback_ok stateCookie = Inr ''s1''"
  "FormValue callback_no_code ''code'' = []"
  "ClientID sample_server = ''client''"
  by (simp_all add: callback_mismatch_def callback_no_cookie_def callback_ok_def
      callback_no_code_def sample_request_def sample_server_def FormValue_def unseal_def)

theorem state_check_precedes_exchange_witness:
  "snd (tokenExchange sample_server callback_mismatch) = Inl StateMismatch \<and>
   snd (tokenExchange sample_server callback_no_cookie) = Inl ErrNoCookie \<and>
   last (viewOauthCB sample_server callback_mismatch) = HttpError ''oauth failure'' 400 \<and>
   tokenExchange sample_server callback_ok =
     ([SetCookie stateCookie None (- 1), ExchangeCall ''c1''], Inr ''token'')"
proof -
  have h1: "(\<exists>e. unseal (open_state sample_server) callback_mismatch stateCookie = Inl e) \<or>
    (\<exists>st. unseal (open_state sample_server) callback_mismatch stateCookie = Inr st \<and>
          st \<noteq> FormValue callback_mismatch ''state'')"
    by (simp add: sample_callbacks)
  have h2: "(\<exists>e. unseal (open_state sample_server) callback_no_cookie stateCookie = Inl e) \<or>
    (\<exists>st. unseal (open_state sample_server) callback_no_cookie stateCookie = Inr st \<and>
          st \<noteq> FormValue callback_no_cookie ''state'')"
    by (simp add: sample_callbacks)
  note m = state_check_precedes_exchange [of sample_server callback_mismatch,
      THEN conjunct1, THEN mp, OF h1]
  note n = state_check_precedes_exchange [of sample_server callback_no_cookie,
      THEN conjunct1, THEN mp, OF h2]
  have a: "snd (tokenExchange sample_server callback_mismatch) = Inl StateMismatch"
    using m by (simp add: sample_callbacks)
  have b: "snd (tokenExchange sample_server callback_no_cookie) = Inl ErrNoCookie"
    using n by (simp add: sample_callbacks)
  have c: "last (viewOauthCB sample_server callback_mismatch) = HttpError ''oauth failure'' 400"
    using m by (simp add: sample_callbacks)
  have d: "tokenExchange sample_server callback_ok =
     ([SetCookie stateCookie None (- 1), ExchangeCall ''c1''], Inr ''token'')"
    by (simp add: tokenExchange_verified sample_callbacks) (simp add: sample_server_def)
  show ?thesis using a b c d by simp
qed

lemma store_cookie_other:
  assumes "\<forall>v ttl. ev \<noteq> SetCookie name v ttl"
  shows "store_cookie jar ev name = jar name"
  using assms by (cases "(jar, ev)" rule: store_cookie.cases) auto

lemma foldl_store_cookie_other:
  assumes "\<forall>ev \<in> set evs. \<forall>v ttl. ev \<noteq> SetCookie name v ttl"
  shows "foldl store_cookie jar evs name = jar name"
  using assms
proof (induction evs arbitrary: jar)
  case Nil
  then show ?case by simp
next
  case (Cons ev evs)
  then have "foldl store_cookie (store_cookie jar ev) evs name = store_cookie jar ev name"
    by simp
  also have "\<dots> = jar name" using Cons.prems by (simp add: store_cookie_other)
  finally show ?case by simp
qed

lemma viewOauthCB_after_exchange:
  assumes "ClientID s \<noteq> []" "tokenExchange s req = (evs, r)"
  shows "\<exists>rest. viewOauthCB s req = evs @ rest \<and>
           (\<forall>ev \<in> set rest. \<forall>v ttl. ev \<noteq> SetCookie stateCookie v ttl)"
  using assms by (auto simp: viewOauthCB_def split: sum.splits)

text \<open>
  Claim C4, as amended. A callback without a \<open>code\<close> fails with \<open>MissingCode\<close>
  and does nothing else. A callback with a \<open>code\<close> clears the state cookie first,
  whatever the outcome of unsealing, comparison and exchange: the user agent's next
  request carries no state cookie, after \<open>tokenExchange\<close> and after the whole
  configured callback.
\<close>

theorem state_cookie_cleared_when_code_present:
  "(FormValue req ''code'' = [] \<longrightarrow> tokenExchange s req = ([], Inl MissingCode)) \<and>
   (FormValue req ''code'' \<noteq> [] \<longrightarrow>
      (\<exists>rest. fst (tokenExchange s req) = SetCookie stateCookie None (- 1) # rest) \<and>
      Cookies (next_request req (fst (tokenExchange s req)) req') stateCookie = None \<and>
      (ClientID s \<noteq> [] \<longrightarrow>
         Cookies (next_request req (viewOauthCB s req) req') stateCookie = None))"
proof (intro conjI impI)
  assume "FormValue req ''code'' = []"
  then show "tokenExchange s req = ([], Inl MissingCode)" by (rule tokenExchange_missing_code)
next
  assume code: "FormValue req ''code'' \<noteq> []"
  have shape: "\<exists>rest. fst (tokenExchange s req) = SetCookie stateCookie None (- 1) # rest \<and>
      (\<forall>ev \<in> set rest. \<forall>v ttl. ev \<noteq> SetCookie stateCookie v ttl)"
  proof (cases rule: tokenExchange_cases [where req = req and s = s])
    case missing
    with code show ?thesis by simp
  next
    case (unsealed_error e)
    then show ?thesis by (simp add: tokenExchange_unseal_error)
  next
    case (mismatch st)
    then show ?thesis by (simp add: tokenExchange_mismatch)
  next
    case verified
    then show ?thesis by (simp add: tokenExchange_verified)
  qed
  then obtain rest where rest: "fst (tokenExchange s req) = SetCookie stateCookie None (- 1) # rest"
    "\<forall>ev \<in> set rest. \<forall>v ttl. ev \<noteq> SetCookie stateCookie v ttl" by blast
  show "\<exists>rest. fst (tokenExchange s req) = SetCookie stateCookie None (- 1) # rest"
    using rest(1) by blast
  show "Cookies (next_request req (fst (tokenExchange s req)) req') stateCookie = None"
    using foldl_store_cookie_other [OF rest(2)]
    by (simp add: next_request_def rest(1))
  show "Cookies (next_request req (viewOauthCB s req) req') stateCookie = None"
    if conf: "ClientID s \<noteq> []"
  proof -
    obtain more where more: "viewOauthCB s req = fst (tokenExchange s req) @ more"
      "\<forall>ev \<in> set more. \<forall>v ttl. ev \<noteq> SetCookie stateCookie v ttl"
      using viewOauthCB_after_exchange [OF conf, of req "fst (tokenExchange s req)" "snd (tokenExchange s req)"]
      by auto
    have "\<forall>ev \<in> set (rest @ more). \<forall>v ttl. ev \<noteq> SetCookie stateCookie v ttl"
      using rest(2) more(2) by auto
    from foldl_store_cookie_other [OF this]
    show ?thesis by (simp add: next_request_def more(1) rest(1))
  qed
qed

theorem state_cookie_cleared_when_code_present_witness:
  "tokenExchange sample_server callback_no_code = ([], Inl MissingCode) \<and>
   Cookies (next_request callback_mismatch (viewOauthCB sample_server callback_mismatch) callback_ok)
     stateCookie = None \<and>
   Cookies (next_request callback_ok (viewOauthCB sample_server callback_ok) callback_ok)
     stateCookie = None"
proof -
  note a = state_cookie_cleared_when_code_present [of callback_no_code sample_server,
      THEN conjunct1, THEN mp, OF sample_callbacks(9)]
  have c1: "FormValue callback_mismatch ''code'' \<noteq> []" by (simp add: sample_callbacks)
  have c2: "FormValue callback_ok ''code'' \<noteq> []" by (simp add: sample_callbacks)
  have conf: "ClientID sample_server \<noteq> []" by (simp add: sample_callbacks)
  note b = state_cookie_cleared_when_code_present [of callback_mismatch sample_server callback_ok,
      THEN conjunct2, THEN mp, OF c1, THEN conjunct2, THEN conjunct2, THEN mp, OF conf]
  note c = state_cookie_cleared_when_code_present [of callback_ok sample_server callback_ok,
      THEN conjunct2, THEN mp, OF c2, THEN conjunct2, THEN conjunct2, THEN mp, OF conf]
  show ?thesis using a b c by simp
qed

text \<open>
  Claim C4 as stated fails for a missing \<open>code\<close>: the callback answers 400 without
  setting any cookie, and the state cookie the request carried is still there for the
  next request.
\<close>

theorem state_cookie_kept_on_missing_code_counterexample:
  "viewOauthCB sample_server callback_no_code =
     [LogError ''10.0.0.1:4000'' MissingCode, HttpError ''oauth failure'' 400] \<and>
   Cookies callback_no_code stateCookie = Some ''sealed-s1'' \<and>
   Cookies (next_request callback_no_code (viewOauthCB sample_server callback_no_code) callback_ok)
     stateCookie = Some ''sealed-s1''"
proof -
  have v: "viewOauthCB sample_server callback_no_code =
     [LogError ''10.0.0.1:4000'' MissingCode, HttpError ''oauth failure'' 400]"
    by (simp add: viewOauthCB_def tokenExchange_missing_code sample_callbacks)
      (simp add: callback_no_code_def sample_request_def)
  have j: "Cookies callback_no_code stateCookie = Some ''sealed-s1''"
    by (simp add: callback_no_code_def sample_request_def)
  show ?thesis by (simp add: v j next_request_def)
qed

subsection \<open>Identity read and logout\<close>

lemma viewUser_unseal_error:
  assumes "unseal (open_login s) req loginCookie = Inl e"
  shows "viewUser s req = [WriteJSON anonymous]"
  using assms by (simp add: viewUser_def anonymous_def)

lemma unseal_absent:
  assumes "Cookies req name = None"
  shows "unseal opn req name = Inl ErrNoCookie"
  using assms by (simp add: unseal_def)

text \<open>
  Claim C9. An identity read whose session cookie is absent or does not unseal writes
  the empty identity, not an error. Logout clears the session cookie and writes \<open>{}\<close>;
  the request that follows it carries no session cookie, and an identity read on it
  writes the empty identity.
\<close>

theorem anonymous_identity_read:
  "(Cookies req loginCookie = None \<or> (\<exists>e. unseal (open_login s) req loginCookie = Inl e) \<longrightarrow>
      viewUser s req = [WriteJSON anonymous]) \<and>
   viewOauthLogout s req =
     [SetCookie loginCookie None (- 1), SetHeader ''Content-Type'' ''application/json'',
      Write ''{}''] \<and>
   Cookies (next_request req (viewOauthLogout s req) req') loginCookie = None \<and>
   viewUser s (next_request req (viewOauthLogout s req) req') = [WriteJSON anonymous]"
proof (intro conjI impI)
  assume "Cookies req loginCookie = None \<or> (\<exists>e. unseal (open_login s) req loginCookie = Inl e)"
  then obtain e where "unseal (open_login s) req loginCookie = Inl e"
    using unseal_absent by blast
  then show "viewUser s req = [WriteJSON anonymous]" by (rule viewUser_unseal_error)
next
  show "viewOauthLogout s req =
     [SetCookie loginCookie None (- 1), SetHeader ''Content-Type'' ''application/json'',
      Write ''{}'']"
    by (simp add: viewOauthLogout_def)
next
  show gone: "Cookies (next_request req (viewOauthLogout s req) req') loginCookie = None"
    by (simp add: next_request_def viewOauthLogout_def)
  show "viewUser s (next_request req (viewOauthLogout s req) req') = [WriteJSON anonymous]"
    using unseal_absent [OF gone] by (rule viewUser_unseal_error)
qed

theorem anonymous_identity_read_witness:
  "viewUser sample_server session_request =
     [WriteJSON \<lparr>ID = ''42'', Username = ''ann'', Discriminator = ''0001'',
                 Avatar = ''/avatars/42/abc.png''\<rparr>] \<and>
   viewUser sample_server forged_request = [WriteJSON anonymous] \<and>
   viewUser sample_server
     (next_request session_request (viewOauthLogout sample_server session_request) session_request) =
     [WriteJSON anonymous]"
proof -
  have signed_in: "viewUser sample_server session_request =
     [WriteJSON \<lparr>ID = ''42'', Username = ''ann'', Discriminator = ''0001'',
                 Avatar = ''/avatars/42/abc.png''\<rparr>]"
    by (simp add: viewUser_def unseal_def session_request_def sample_request_def
        sample_server_def sample_user_def)
  have bad: "Cookies forged_request loginCookie = None \<or>
      (\<exists>e. unseal (open_login sample_server) forged_request loginCookie = Inl e)"
    by (simp add: unseal_def forged_request_def sample_request_def sample_server_def)
  note inst = anonymous_identity_read [of forged_request sample_server]
  note forged = inst [THEN conjunct1, THEN mp, OF bad]
  note after = anonymous_identity_read [of session_request sample_server session_request,
      THEN conjunct2, THEN conjunct2, THEN conjunct2]
  show ?thesis using signed_in forged after by simp
qed

end
